theory Spec2Isabelle
  imports Main "HOL-Library.Sublist"
begin

section \<open>The identity cell of pkg/identity/cache/cell (cell.go)\<close>

text \<open>
  The cell wires the identity allocator: it declares one hidden configuration flag, builds
  the allocator owner and the allocator (full or no-op), registers a stop hook, and the owner
  fans identity changes out to handlers before it triggers policy updates. Go's globals
  (\<^verbatim>\<open>option.Config\<close>, the node addresses) are passed in explicitly; a call of
  \<^verbatim>\<open>log.Fatal\<close> or a panic is a value of type \<open>error\<close>.
\<close>

datatype error = Fatal string | Panic string

subsection \<open>GetNodeSuffix\<close>

text \<open>The two fields of \<^verbatim>\<open>option.Config\<close> that cell.go reads.\<close>

record DaemonConfig =
  EnableIPv4 :: bool
  EnableIPv6 :: bool

text \<open>
  A \<^verbatim>\<open>net.IP\<close> is a byte slice; the nil slice is \<open>None\<close>. The record holds what
  \<^verbatim>\<open>node.GetIPv4()\<close> and \<^verbatim>\<open>node.GetIPv6()\<close> return at the time of the call.
\<close>

type_synonym IP = "nat list"

record node =
  GetIPv4 :: "IP option"
  GetIPv6 :: "IP option"

text \<open>
  \<^verbatim>\<open>
  func (iao *identityAllocatorOwner) GetNodeSuffix() string {
      var ip net.IP
      switch {
      case option.Config.EnableIPv4: ip = node.GetIPv4()
      case option.Config.EnableIPv6: ip = node.GetIPv6()
      }
      if ip == nil { log.Fatal("Node IP not available yet") }
      return ip.String()
  }
  \<close>
  \<^verbatim>\<open>ip.String()\<close> is the standard library's; it is the parameter \<open>String\<close>.
\<close>

definition GetNodeSuffix :: "(IP \<Rightarrow> string) \<Rightarrow> DaemonConfig \<Rightarrow> node \<Rightarrow> error + string" where
  "GetNodeSuffix String cfg nd =
     (let ip = (if EnableIPv4 cfg then GetIPv4 nd
                else if EnableIPv6 cfg then GetIPv6 nd
                else None)
      in case ip of
           None \<Rightarrow> Inl (Fatal ''Node IP not available yet'')
         | Some a \<Rightarrow> Inr (String a))"

text \<open>
  The claim of the specification about the preference, as a check of one call: the call
  returns the node's IPv4 address as the suffix.
\<close>

definition returns_IPv4_address :: "(IP \<Rightarrow> string) \<Rightarrow> DaemonConfig \<Rightarrow> node \<Rightarrow> bool" where
  "returns_IPv4_address String cfg nd =
     (case GetIPv4 nd of
        None \<Rightarrow> False
      | Some v4 \<Rightarrow> GetNodeSuffix String cfg nd = Inr (String v4))"

subsection \<open>Configuration\<close>

text \<open>
  \<^verbatim>\<open>
  type config struct {
      EnableOperatorManageCIDs bool `mapstructure:"operator-manages-identities"`
  }
  var defaultConfig = config{ EnableOperatorManageCIDs: false }
  \<close>
\<close>

record config =
  EnableOperatorManageCIDs :: bool

definition defaultConfig :: config where
  "defaultConfig = \<lparr>EnableOperatorManageCIDs = False\<rparr>"

text \<open>
  The part of pflag's \<^verbatim>\<open>FlagSet\<close> that \<^verbatim>\<open>Flags\<close> uses: a flag has a name, a usage
  text, a typed default value and the \<^verbatim>\<open>Hidden\<close> mark; the set keeps its flags in the order
  of registration. \<^verbatim>\<open>FlagSet.Bool\<close> registers a boolean flag that is not hidden and panics
  when the name is taken, with the text \<^verbatim>\<open><name of the set> flag redefined: <name>\<close>, the
  set being the unnamed one that hive hands to \<^verbatim>\<open>Flags\<close>; \<^verbatim>\<open>FlagSet.MarkHidden\<close> sets the mark of the flag of that name and
  returns an error, which \<^verbatim>\<open>Flags\<close> drops, when there is none.
\<close>

datatype flag_value = BoolValue bool | StringValue string

record Flag =
  Name :: string
  Usage :: string
  DefValue :: flag_value
  Hidden :: bool

type_synonym FlagSet = "Flag list"

definition Bool :: "string \<Rightarrow> bool \<Rightarrow> string \<Rightarrow> FlagSet \<Rightarrow> error + FlagSet" where
  "Bool name v usage flags =
     (if name \<in> set (map Name flags) then Inl (Panic ('' flag redefined: '' @ name))
      else Inr (flags @ [\<lparr>Name = name, Usage = usage, DefValue = BoolValue v, Hidden = False\<rparr>]))"

definition MarkHidden :: "string \<Rightarrow> FlagSet \<Rightarrow> FlagSet" where
  "MarkHidden name flags = map (\<lambda>f. if Name f = name then f\<lparr>Hidden := True\<rparr> else f) flags"

text \<open>
  \<^verbatim>\<open>
  func (c config) Flags(flags *pflag.FlagSet) {
      flags.Bool("operator-manages-identities", c.EnableOperatorManageCIDs, "Enables operator to ...")
      flags.MarkHidden("operator-manages-identities")
  }
  \<close>
\<close>

definition Flags :: "config \<Rightarrow> FlagSet \<Rightarrow> error + FlagSet" where
  "Flags c flags =
     (case Bool ''operator-manages-identities'' (EnableOperatorManageCIDs c)
             ''Enables operator to manage Cilium Identities by running a Cilium Identity controller''
             flags of
        Inl e \<Rightarrow> Inl e
      | Inr flags' \<Rightarrow> Inr (MarkHidden ''operator-manages-identities'' flags'))"

subsection \<open>The allocator owner and UpdateIdentities\<close>

text \<open>
  \<^verbatim>\<open>identity.IdentityMap\<close> maps a numeric identity to its labels; a batch of changes is the
  pair \<open>added\<close>, \<open>deleted\<close>.
\<close>

type_synonym NumericIdentity = nat
type_synonym Labels = "string list"
type_synonym IdentityMap = "NumericIdentity \<rightharpoonup> Labels"

text \<open>
  The consumers of a batch: the \<open>i\<close>-th element of \<^verbatim>\<open>iao.identityHandlers\<close> and the selector
  cache of the policy repository.
\<close>

datatype consumer = Handler nat | SelectorCache

text \<open>
  A consumer implements \<^verbatim>\<open>UpdateIdentities(added, deleted, wg)\<close>; its code is not in
  cell.go, and the wait group it receives is the only way it reports back. It either finishes
  its work before the call returns (\<open>Inline\<close>), or calls \<^verbatim>\<open>wg.Add(1)\<close>, hands the work to
  another goroutine and returns, and that goroutine calls \<^verbatim>\<open>wg.Done()\<close> when the work is
  finished (\<open>Deferred\<close>).
\<close>

datatype completion = Inline | Deferred

text \<open>
  \<^verbatim>\<open>
  type identityAllocatorOwner struct {
      policy        policy.PolicyRepository
      policyUpdater *policy.Updater
      identityHandlers []identity.UpdateIdentities
  }
  \<close>
  Of the policy repository the owner uses the selector cache only, and of the updater only
  \<^verbatim>\<open>TriggerPolicyUpdates\<close>, which is an event of the run below.
\<close>

record identityAllocatorOwner =
  policy :: completion
  identityHandlers :: "completion list"

text \<open>
  What an observer of one call of \<^verbatim>\<open>UpdateIdentities\<close> sees: a consumer is called with the
  batch, a consumer has finished its work on the batch, \<^verbatim>\<open>wg.Wait()\<close> returns, the policy
  updater is triggered with its two arguments.
\<close>

datatype event =
    Dispatch consumer IdentityMap IdentityMap
  | Ack consumer
  | WaitReturn
  | TriggerPolicyUpdates bool string

text \<open>The statement the owner's goroutine executes next.\<close>

datatype pc = Loop nat | CallSelectorCache | Wait | Trigger | Return

text \<open>
  The state of one call: the owner's position, the counter of the wait group, the consumers
  whose deferred work is still running, and the events so far, oldest first.
\<close>

record run_state =
  pc :: pc
  wg :: nat
  running :: "consumer list"
  trace :: "event list"

definition call_consumer ::
  "consumer \<Rightarrow> completion \<Rightarrow> IdentityMap \<Rightarrow> IdentityMap \<Rightarrow> run_state \<Rightarrow> run_state" where
  "call_consumer c how added deleted s =
     (case how of
        Inline \<Rightarrow> s\<lparr>trace := trace s @ [Dispatch c added deleted, Ack c]\<rparr>
      | Deferred \<Rightarrow> s\<lparr>wg := wg s + 1, running := running s @ [c],
                       trace := trace s @ [Dispatch c added deleted]\<rparr>)"

text \<open>
  \<^verbatim>\<open>
  func (iao *identityAllocatorOwner) UpdateIdentities(added, deleted identity.IdentityMap) {
      wg := &sync.WaitGroup{}
      for _, handler := range iao.identityHandlers {
          handler.UpdateIdentities(added, deleted, wg)
      }
      // Invoke policy selector cache always as the last handler
      iao.policy.GetSelectorCache().UpdateIdentities(added, deleted, wg)
      // Wait for update propagation to endpoints before triggering policy updates
      wg.Wait()
      iao.policyUpdater.TriggerPolicyUpdates(false, "one or more identities created or deleted")
  }
  \<close>
  One step of the owner's goroutine. \<^verbatim>\<open>wg.Wait()\<close> blocks while the counter is not zero:
  the step is \<open>None\<close> then, as it is once the function has returned.
\<close>

definition owner_step ::
  "identityAllocatorOwner \<Rightarrow> IdentityMap \<Rightarrow> IdentityMap \<Rightarrow> run_state \<Rightarrow> run_state option" where
  "owner_step iao added deleted s =
     (case pc s of
        Loop i \<Rightarrow>
          if i < length (identityHandlers iao)
          then Some ((call_consumer (Handler i) (identityHandlers iao ! i) added deleted s)
                       \<lparr>pc := Loop (Suc i)\<rparr>)
          else Some (s\<lparr>pc := CallSelectorCache\<rparr>)
      | CallSelectorCache \<Rightarrow>
          Some ((call_consumer SelectorCache (policy iao) added deleted s)\<lparr>pc := Wait\<rparr>)
      | Wait \<Rightarrow>
          if wg s = 0 then Some (s\<lparr>pc := Trigger, trace := trace s @ [WaitReturn]\<rparr>) else None
      | Trigger \<Rightarrow>
          Some (s\<lparr>pc := Return,
                   trace := trace s @
                     [TriggerPolicyUpdates False ''one or more identities created or deleted'']\<rparr>)
      | Return \<Rightarrow> None)"

text \<open>
  The goroutine that a deferred consumer started finishes: it calls \<^verbatim>\<open>wg.Done()\<close>. The
  step is \<open>None\<close> when the consumer has no work running.
\<close>

definition done_step :: "consumer \<Rightarrow> run_state \<Rightarrow> run_state option" where
  "done_step c s =
     (if c \<in> set (running s)
      then Some (s\<lparr>wg := wg s - 1, running := remove1 c (running s), trace := trace s @ [Ack c]\<rparr>)
      else None)"

text \<open>
  The scheduler picks who moves next: the owner, or the goroutine of a consumer. A schedule
  is a list of such choices; a choice that cannot move makes the schedule impossible.
\<close>

datatype actor = Owner | Background consumer

fun step ::
  "identityAllocatorOwner \<Rightarrow> IdentityMap \<Rightarrow> IdentityMap \<Rightarrow> actor \<Rightarrow> run_state \<Rightarrow> run_state option" where
  "step iao added deleted Owner s = owner_step iao added deleted s"
| "step iao added deleted (Background c) s = done_step c s"

fun exec ::
  "identityAllocatorOwner \<Rightarrow> IdentityMap \<Rightarrow> IdentityMap \<Rightarrow> actor list \<Rightarrow> run_state \<Rightarrow> run_state option" where
  "exec iao added deleted [] s = Some s"
| "exec iao added deleted (a # as) s =
     (case step iao added deleted a s of
        None \<Rightarrow> None
      | Some s' \<Rightarrow> exec iao added deleted as s')"

text \<open>The call starts with a fresh wait group, at the head of the loop.\<close>

definition start :: run_state where
  "start = \<lparr>pc = Loop 0, wg = 0, running = [], trace = []\<rparr>"

text \<open>The events of \<^verbatim>\<open>UpdateIdentities\<close> under a schedule, if the schedule is possible.\<close>

definition UpdateIdentities ::
  "identityAllocatorOwner \<Rightarrow> IdentityMap \<Rightarrow> IdentityMap \<Rightarrow> actor list \<Rightarrow> event list option" where
  "UpdateIdentities iao added deleted sched =
     map_option trace (exec iao added deleted sched start)"

text \<open>Reading a trace: who was called, in order; who has finished; what was triggered.\<close>

fun dispatched :: "event list \<Rightarrow> consumer list" where
  "dispatched [] = []"
| "dispatched (Dispatch c added deleted # es) = c # dispatched es"
| "dispatched (e # es) = dispatched es"

fun acked :: "event list \<Rightarrow> consumer list" where
  "acked [] = []"
| "acked (Ack c # es) = c # acked es"
| "acked (e # es) = acked es"

fun triggers :: "event list \<Rightarrow> (bool \<times> string) list" where
  "triggers [] = []"
| "triggers (TriggerPolicyUpdates full reason # es) = (full, reason) # triggers es"
| "triggers (e # es) = triggers es"


subsection \<open>Invariants of a call of UpdateIdentities\<close>

text \<open>Every consumer the owner calls: the handlers in their order, then the selector cache.\<close>

definition all_consumers :: "identityAllocatorOwner \<Rightarrow> consumer list" where
  "all_consumers iao = map Handler [0..<length (identityHandlers iao)] @ [SelectorCache]"

text \<open>The counter of the wait group is the number of deferred works still running.\<close>

definition counted :: "run_state \<Rightarrow> bool" where
  "counted s \<longleftrightarrow> wg s = length (running s)"

text \<open>A consumer that was called has finished or is still running.\<close>

definition accounted :: "run_state \<Rightarrow> bool" where
  "accounted s \<longleftrightarrow> set (dispatched (trace s)) \<subseteq> set (acked (trace s)) \<union> set (running s)"

text \<open>Every consumer is called with the batch the owner was called with.\<close>

definition same_batch :: "IdentityMap \<Rightarrow> IdentityMap \<Rightarrow> run_state \<Rightarrow> bool" where
  "same_batch added deleted s \<longleftrightarrow>
     (\<forall>c a d. Dispatch c a d \<in> set (trace s) \<longrightarrow> a = added \<and> d = deleted)"

text \<open>What has happened by the time the owner is at each statement.\<close>

definition in_order :: "identityAllocatorOwner \<Rightarrow> run_state \<Rightarrow> bool" where
  "in_order iao s \<longleftrightarrow>
     (case pc s of
        Loop i \<Rightarrow> i \<le> length (identityHandlers iao) \<and>
                  dispatched (trace s) = map Handler [0..<i] \<and> triggers (trace s) = []
      | CallSelectorCache \<Rightarrow>
          dispatched (trace s) = map Handler [0..<length (identityHandlers iao)] \<and>
          triggers (trace s) = []
      | Wait \<Rightarrow> dispatched (trace s) = all_consumers iao \<and> triggers (trace s) = []
      | Trigger \<Rightarrow> dispatched (trace s) = all_consumers iao \<and> triggers (trace s) = [] \<and>
                   running s = [] \<and> WaitReturn \<in> set (trace s)
      | Return \<Rightarrow> dispatched (trace s) = all_consumers iao \<and> running s = [] \<and>
                  (\<exists>pre. trace s = pre @ [TriggerPolicyUpdates False
                                             ''one or more identities created or deleted''] \<and>
                         triggers pre = [] \<and> WaitReturn \<in> set pre))"

definition inv :: "identityAllocatorOwner \<Rightarrow> IdentityMap \<Rightarrow> IdentityMap \<Rightarrow> run_state \<Rightarrow> bool" where
  "inv iao added deleted s \<longleftrightarrow>
     counted s \<and> accounted s \<and> same_batch added deleted s \<and> in_order iao s"





subsection \<open>newIdentityAllocator\<close>

text \<open>
  Go objects live in a store; a pointer or an interface value is the address of its object,
  so that two interface values are the same instance exactly when the addresses are equal.
  A new object takes the next free address.
\<close>

type_synonym ref = nat

text \<open>\<^verbatim>\<open>cache.AllocatorConfig\<close>, with the one field that cell.go sets.\<close>

record AllocatorConfig =
  AllocatorConfig_EnableOperatorManageCIDs :: bool

text \<open>
  An identity as the specification has it: \<^verbatim>\<open>{ numeric, labels, scope, refcount }\<close>.
\<close>

datatype Scope = Local | Cluster | Remote

record Identity =
  numeric :: NumericIdentity
  labels :: Labels
  scope :: Scope
  refcount :: nat

type_synonym Identities = "NumericIdentity \<rightharpoonup> Identity"

text \<open>
  The full allocator of \<^verbatim>\<open>pkg/identity/cache\<close>: the owner and the configuration it was
  built with, whether checkpointing is enabled, whether it is closed, its live local
  identities and the identities on which a restoration hold is still kept.
\<close>

record CachingIdentityAllocator =
  owner :: ref
  allocatorConfig :: AllocatorConfig
  checkpointing :: bool
  closed :: bool
  identities :: Identities
  restored :: "NumericIdentity set"

datatype object =
    OwnerObject identityAllocatorOwner
  | CachingAllocator CachingIdentityAllocator
  | NoopAllocator

type_synonym heap = "object list"

definition new :: "object \<Rightarrow> heap \<Rightarrow> ref \<times> heap" where
  "new obj h = (length h, h @ [obj])"

text \<open>
  Modelled from the spec: \<^verbatim>\<open>cache.NewCachingIdentityAllocator\<close>,
  \<^verbatim>\<open>EnableCheckpointing\<close>, \<^verbatim>\<open>cache.NewNoopIdentityAllocator\<close> and \<^verbatim>\<open>Close\<close> are
  code of \<^verbatim>\<open>pkg/identity/cache\<close>, which is not among the sources. The constructor
  returns a new allocator that keeps the owner and the configuration, with no identity and
  checkpointing off; \<^verbatim>\<open>EnableCheckpointing\<close> turns checkpointing on; the no-op constructor
  returns a new no-op allocator; \<^verbatim>\<open>Close\<close> stops the full allocator and does nothing to
  the no-op one.
\<close>

definition NewCachingIdentityAllocator :: "ref \<Rightarrow> AllocatorConfig \<Rightarrow> heap \<Rightarrow> ref \<times> heap" where
  "NewCachingIdentityAllocator iao cfg h =
     new (CachingAllocator \<lparr>owner = iao, allocatorConfig = cfg, checkpointing = False,
                             closed = False, identities = Map.empty, restored = {}\<rparr>) h"

definition update_object :: "ref \<Rightarrow> (object \<Rightarrow> object) \<Rightarrow> heap \<Rightarrow> heap" where
  "update_object r f h = (if r < length h then h[r := f (h ! r)] else h)"

definition EnableCheckpointing :: "ref \<Rightarrow> heap \<Rightarrow> heap" where
  "EnableCheckpointing r h =
     update_object r
       (\<lambda>obj. case obj of CachingAllocator a \<Rightarrow> CachingAllocator (a\<lparr>checkpointing := True\<rparr>)
                | _ \<Rightarrow> obj) h"

definition NewNoopIdentityAllocator :: "heap \<Rightarrow> ref \<times> heap" where
  "NewNoopIdentityAllocator h = new NoopAllocator h"

definition Close :: "ref \<Rightarrow> heap \<Rightarrow> heap" where
  "Close r h =
     update_object r
       (\<lambda>obj. case obj of CachingAllocator a \<Rightarrow> CachingAllocator (a\<lparr>closed := True\<rparr>)
                | _ \<Rightarrow> obj) h"

text \<open>
  A hook of the lifecycle. The only function cell.go puts into one is the closure
  \<^verbatim>\<open>func(hc cell.HookContext) error { idAlloc.Close(); return nil }\<close>, which is the
  address it captured; running it closes the object at that address and returns no error.
\<close>

datatype hook_fn = Close_idAlloc ref

record Hook =
  OnStart :: "hook_fn option"
  OnStop :: "hook_fn option"

type_synonym Lifecycle = "Hook list"

definition Append :: "Hook \<Rightarrow> Lifecycle \<Rightarrow> Lifecycle" where
  "Append hook lc = lc @ [hook]"

fun run_hook_fn :: "hook_fn \<Rightarrow> heap \<Rightarrow> error option \<times> heap" where
  "run_hook_fn (Close_idAlloc r) h = (None, Close r h)"

text \<open>
  \<^verbatim>\<open>
  type identityAllocatorParams struct {
      cell.In
      Lifecycle        cell.Lifecycle
      PolicyRepository policy.PolicyRepository
      PolicyUpdater    *policy.Updater
      IdentityHandlers []identity.UpdateIdentities `group:"identity-handlers"`
      Config config
  }
  type identityAllocatorOut struct {
      cell.Out
      IdentityAllocator      CachingIdentityAllocator
      CacheIdentityAllocator cache.IdentityAllocator
      RemoteIdentityWatcher  clustermesh.RemoteIdentityWatcher
      IdentityObservable     stream.Observable[cache.IdentityChange]
  }
  \<close>
\<close>

record identityAllocatorParams =
  Lifecycle :: Lifecycle
  PolicyRepository :: completion
  IdentityHandlers :: "completion list"
  Config :: config

record identityAllocatorOut =
  IdentityAllocator :: ref
  CacheIdentityAllocator :: ref
  RemoteIdentityWatcher :: ref
  IdentityObservable :: ref

text \<open>
  \<^verbatim>\<open>
  func newIdentityAllocator(params identityAllocatorParams) identityAllocatorOut {
      iao := &identityAllocatorOwner{
          policy: params.PolicyRepository, policyUpdater: params.PolicyUpdater,
          identityHandlers: params.IdentityHandlers,
      }
      var idAlloc CachingIdentityAllocator
      if netPolicySystemIsEnabled(option.Config) {
          allocatorConfig := cache.AllocatorConfig{
              EnableOperatorManageCIDs: params.Config.EnableOperatorManageCIDs,
          }
          cacheIDAlloc := cache.NewCachingIdentityAllocator(iao, allocatorConfig)
          cacheIDAlloc.EnableCheckpointing()
          idAlloc = cacheIDAlloc
      } else {
          idAlloc = cache.NewNoopIdentityAllocator()
      }
      params.Lifecycle.Append(cell.Hook{
          OnStop: func(hc cell.HookContext) error { idAlloc.Close(); return nil },
      })
      return identityAllocatorOut{
          IdentityAllocator: idAlloc, CacheIdentityAllocator: idAlloc,
          RemoteIdentityWatcher: idAlloc, IdentityObservable: idAlloc,
      }
  }
  \<close>
  \<^verbatim>\<open>netPolicySystemIsEnabled\<close> is declared in another file of the package; it is a
  parameter, as is \<^verbatim>\<open>option.Config\<close>. The function returns its result, the store and the
  lifecycle, which \<^verbatim>\<open>Append\<close> changed.
\<close>

definition newIdentityAllocator ::
  "(DaemonConfig \<Rightarrow> bool) \<Rightarrow> DaemonConfig \<Rightarrow> identityAllocatorParams \<Rightarrow> heap
     \<Rightarrow> identityAllocatorOut \<times> heap \<times> Lifecycle" where
  "newIdentityAllocator netPolicySystemIsEnabled option_Config params h =
     (let (iao, h1) = new (OwnerObject \<lparr>policy = PolicyRepository params,
                                         identityHandlers = IdentityHandlers params\<rparr>) h;
          (idAlloc, h2) =
            (if netPolicySystemIsEnabled option_Config
             then (let allocatorConfig =
                         \<lparr>AllocatorConfig_EnableOperatorManageCIDs =
                            EnableOperatorManageCIDs (Config params)\<rparr>;
                       (cacheIDAlloc, h') = NewCachingIdentityAllocator iao allocatorConfig h1
                   in (cacheIDAlloc, EnableCheckpointing cacheIDAlloc h'))
             else NewNoopIdentityAllocator h1);
          lifecycle = Append \<lparr>OnStart = None, OnStop = Some (Close_idAlloc idAlloc)\<rparr>
                        (Lifecycle params)
      in (\<lparr>IdentityAllocator = idAlloc, CacheIdentityAllocator = idAlloc,
           RemoteIdentityWatcher = idAlloc, IdentityObservable = idAlloc\<rparr>, h2, lifecycle))"

text \<open>Whether the object at an address is an allocator, and one with checkpointing.\<close>

fun is_allocator :: "object \<Rightarrow> bool" where
  "is_allocator (OwnerObject iao) = False"
| "is_allocator (CachingAllocator a) = True"
| "is_allocator NoopAllocator = True"

fun checkpointing_enabled :: "object \<Rightarrow> bool" where
  "checkpointing_enabled (CachingAllocator a) = checkpointing a"
| "checkpointing_enabled obj = False"

subsection \<open>The allocator behind the interface\<close>

text \<open>
  What an allocator does to the world outside it: the checkpoint file it may read or write,
  and the batches of identity changes it hands to its owner.
\<close>

datatype checkpoint_error = CheckpointUnavailable | CheckpointCorrupt

datatype checkpoint_file = NoFile | Undecodable | Snapshot IdentityMap

datatype checkpoint_op = LoadOp | SaveOp

record allocator_env =
  checkpoint :: checkpoint_file
  checkpoint_ops :: "checkpoint_op list"
  batches :: "(IdentityMap \<times> IdentityMap) list"

text \<open>
  Modelled from the spec: the checkpoint store's \<^verbatim>\<open>Load\<close> is not among the sources. It
  reads the snapshot, fails with \<^verbatim>\<open>CheckpointUnavailable\<close> if no prior snapshot exists and
  with \<^verbatim>\<open>CheckpointCorrupt\<close> if the file exists but cannot be decoded.
\<close>

definition Load :: "allocator_env \<Rightarrow> (checkpoint_error + IdentityMap) \<times> allocator_env" where
  "Load env =
     ((case checkpoint env of
         NoFile \<Rightarrow> Inl CheckpointUnavailable
       | Undecodable \<Rightarrow> Inl CheckpointCorrupt
       | Snapshot m \<Rightarrow> Inr m),
      env\<lparr>checkpoint_ops := checkpoint_ops env @ [LoadOp]\<rparr>)"

text \<open>
  Modelled from the spec: cell.go declares \<^verbatim>\<open>RestoreLocalIdentities\<close> in the interface
  \<^verbatim>\<open>CachingIdentityAllocator\<close>; the implementation is not among the sources. It loads the
  checkpoint and for every entry creates or re-creates the identity with the reference count
  seeded at 1, the restoration hold, and returns the resulting map; it fails with the
  store's error if the load fails, and the allocator then goes on as if no restoration
  occurred.
\<close>

definition restored_identity :: "NumericIdentity \<Rightarrow> Labels \<Rightarrow> Identity" where
  "restored_identity n ls = \<lparr>numeric = n, labels = ls, scope = Local, refcount = 1\<rparr>"

definition restored_map :: "IdentityMap \<Rightarrow> Identities" where
  "restored_map snapshot = (\<lambda>n. map_option (restored_identity n) (snapshot n))"

definition RestoreLocalIdentities ::
  "CachingIdentityAllocator \<Rightarrow> allocator_env
     \<Rightarrow> (checkpoint_error + Identities) \<times> CachingIdentityAllocator \<times> allocator_env" where
  "RestoreLocalIdentities a env =
     (case Load env of
        (Inl err, env') \<Rightarrow> (Inl err, a, env')
      | (Inr snapshot, env') \<Rightarrow>
          (Inr (restored_map snapshot),
           a\<lparr>identities := identities a ++ restored_map snapshot, restored := dom snapshot\<rparr>,
           env'))"

text \<open>
  Modelled from the spec: \<^verbatim>\<open>ReleaseRestoredIdentities\<close> is declared in the same interface
  and implemented elsewhere. It decrements the restoration hold on every previously restored
  identity by 1; an identity whose reference count reaches zero is removed; afterwards
  nothing is left to release.
\<close>

definition release_hold :: "Identity option \<Rightarrow> Identity option" where
  "release_hold entry =
     (case entry of
        None \<Rightarrow> None
      | Some i \<Rightarrow> if refcount i \<le> 1 then None else Some (i\<lparr>refcount := refcount i - 1\<rparr>))"

definition ReleaseRestoredIdentities :: "CachingIdentityAllocator \<Rightarrow> CachingIdentityAllocator" where
  "ReleaseRestoredIdentities a =
     a\<lparr>identities := (\<lambda>n. if n \<in> restored a then release_hold (identities a n)
                             else identities a n),
       restored := {}\<rparr>"

text \<open>
  Modelled from the spec: the no-op allocator of \<^verbatim>\<open>pkg/identity/cache\<close> is not among the
  sources. All its contract methods are no-ops that never allocate, never persist and never
  propagate, and Close, Restore and Release succeed trivially.
\<close>

datatype allocator_call =
    CallAllocate Labels
  | CallRelease NumericIdentity
  | CallRestoreLocalIdentities
  | CallReleaseRestoredIdentities
  | CallClose

fun noop_call :: "allocator_call \<Rightarrow> allocator_env \<Rightarrow> allocator_env" where
  "noop_call (CallAllocate ls) env = env"
| "noop_call (CallRelease n) env = env"
| "noop_call CallRestoreLocalIdentities env = env"
| "noop_call CallReleaseRestoredIdentities env = env"
| "noop_call CallClose env = env"

definition noop_calls :: "allocator_call list \<Rightarrow> allocator_env \<Rightarrow> allocator_env" where
  "noop_calls calls env = fold noop_call calls env"

section \<open>Properties\<close>

subsection \<open>GetNodeSuffix\<close>

text \<open>
  C7. When the node suffix is requested and no address is available under the enabled
  address families (the IPv4 address is nil if IPv4 is enabled, the IPv6 address is nil if
  IPv6 is enabled), GetNodeSuffix ends in \<^verbatim>\<open>log.Fatal\<close>: the result is the fatal error and
  no suffix is returned.
\<close>

theorem GetNodeSuffix_fatal_when_ip_unknown:
  assumes "EnableIPv4 cfg \<Longrightarrow> GetIPv4 nd = None"
    and "EnableIPv6 cfg \<Longrightarrow> GetIPv6 nd = None"
  shows "GetNodeSuffix String cfg nd = Inl (Fatal ''Node IP not available yet'')
       \<and> (\<forall>suffix. GetNodeSuffix String cfg nd \<noteq> Inr suffix)"
  using assms by (auto simp: GetNodeSuffix_def)

text \<open>IPv4 is enabled and its address is not known yet; IPv6 is disabled.\<close>

theorem GetNodeSuffix_fatal_when_ip_unknown_witness:
  "GetNodeSuffix (\<lambda>ip. ''fd00::1'') \<lparr>EnableIPv4 = True, EnableIPv6 = False\<rparr>
     \<lparr>GetIPv4 = None, GetIPv6 = Some [253, 0, 0, 0, 0, 0, 0, 0, 0, 0, 0, 0, 0, 0, 0, 1]\<rparr>
   = Inl (Fatal ''Node IP not available yet'')"
  using GetNodeSuffix_fatal_when_ip_unknown
          [of "\<lparr>EnableIPv4 = True, EnableIPv6 = False\<rparr>"
              "\<lparr>GetIPv4 = None, GetIPv6 = Some [253, 0, 0, 0, 0, 0, 0, 0, 0, 0, 0, 0, 0, 0, 0, 1]\<rparr>"
              "\<lambda>ip. ''fd00::1''"]
  by simp

text \<open>
  C10, as the code has it. GetNodeSuffix prefers IPv4. Whenever IPv4 is enabled the outcome
  is decided by the node's IPv4 address alone: that address is the suffix if it is known,
  the call is fatal if it is not, and the result does not depend on the IPv6 address,
  whether or not IPv6 is enabled too. The IPv6 address is the suffix when IPv4 is disabled
  and IPv6 is enabled, and only then can the IPv6 address change the result.
\<close>

theorem GetNodeSuffix_prefers_IPv4:
  "(EnableIPv4 cfg \<longrightarrow>
      GetNodeSuffix String cfg nd =
        (case GetIPv4 nd of
           None \<Rightarrow> Inl (Fatal ''Node IP not available yet'')
         | Some v4 \<Rightarrow> Inr (String v4))) \<and>
   (EnableIPv4 cfg \<longrightarrow>
      GetNodeSuffix String cfg (nd\<lparr>GetIPv6 := other\<rparr>) = GetNodeSuffix String cfg nd) \<and>
   (\<not> EnableIPv4 cfg \<and> EnableIPv6 cfg \<and> GetIPv6 nd = Some v6 \<longrightarrow>
      GetNodeSuffix String cfg nd = Inr (String v6)) \<and>
   (GetNodeSuffix String cfg (nd\<lparr>GetIPv6 := other\<rparr>) \<noteq> GetNodeSuffix String cfg nd \<longrightarrow>
      \<not> EnableIPv4 cfg \<and> EnableIPv6 cfg)"
  by (auto simp: GetNodeSuffix_def)

text \<open>
  Both addresses are known. With both families enabled the suffix is the IPv4 address; with
  IPv4 disabled it is the IPv6 address.
\<close>

theorem GetNodeSuffix_prefers_IPv4_witness:
  "GetNodeSuffix (\<lambda>ip. if length ip = 4 then ''10.0.0.1'' else ''fd00::1'')
     \<lparr>EnableIPv4 = True, EnableIPv6 = True\<rparr>
     \<lparr>GetIPv4 = Some [10, 0, 0, 1], GetIPv6 = Some [253, 0, 0, 0, 0, 0, 0, 0, 0, 0, 0, 0, 0, 0, 0, 1]\<rparr>
     = Inr ''10.0.0.1'' \<and>
   GetNodeSuffix (\<lambda>ip. if length ip = 4 then ''10.0.0.1'' else ''fd00::1'')
     \<lparr>EnableIPv4 = False, EnableIPv6 = True\<rparr>
     \<lparr>GetIPv4 = Some [10, 0, 0, 1], GetIPv6 = Some [253, 0, 0, 0, 0, 0, 0, 0, 0, 0, 0, 0, 0, 0, 0, 1]\<rparr>
     = Inr ''fd00::1''"
  using GetNodeSuffix_prefers_IPv4
          [where cfg = "\<lparr>EnableIPv4 = True, EnableIPv6 = True\<rparr>"
             and nd = "\<lparr>GetIPv4 = Some [10, 0, 0, 1],
                        GetIPv6 = Some [253, 0, 0, 0, 0, 0, 0, 0, 0, 0, 0, 0, 0, 0, 0, 1]\<rparr>"
             and String = "\<lambda>ip. if length ip = 4 then ''10.0.0.1'' else ''fd00::1''"]
        GetNodeSuffix_prefers_IPv4
          [where cfg = "\<lparr>EnableIPv4 = False, EnableIPv6 = True\<rparr>"
             and nd = "\<lparr>GetIPv4 = Some [10, 0, 0, 1],
                        GetIPv6 = Some [253, 0, 0, 0, 0, 0, 0, 0, 0, 0, 0, 0, 0, 0, 0, 1]\<rparr>"
             and String = "\<lambda>ip. if length ip = 4 then ''10.0.0.1'' else ''fd00::1''"
             and ?v6.0 = "[253, 0, 0, 0, 0, 0, 0, 0, 0, 0, 0, 0, 0, 0, 0, 1]"]
  by simp

text \<open>
  C10, as the specification states it, fails. Both families are enabled, the IPv4 address is
  not known yet and the IPv6 address is: the call is fatal, it does not return the node's
  IPv4 address (nor any suffix).
\<close>

theorem GetNodeSuffix_IPv4_enabled_but_unknown:
  "EnableIPv4 \<lparr>EnableIPv4 = True, EnableIPv6 = True\<rparr> \<and>
   GetNodeSuffix (\<lambda>ip. ''fd00::1'') \<lparr>EnableIPv4 = True, EnableIPv6 = True\<rparr>
     \<lparr>GetIPv4 = None, GetIPv6 = Some [253, 0, 0, 0, 0, 0, 0, 0, 0, 0, 0, 0, 0, 0, 0, 1]\<rparr>
     = Inl (Fatal ''Node IP not available yet'') \<and>
   \<not> returns_IPv4_address (\<lambda>ip. ''fd00::1'') \<lparr>EnableIPv4 = True, EnableIPv6 = True\<rparr>
     \<lparr>GetIPv4 = None, GetIPv6 = Some [253, 0, 0, 0, 0, 0, 0, 0, 0, 0, 0, 0, 0, 0, 0, 1]\<rparr>"
  by (simp add: GetNodeSuffix_def returns_IPv4_address_def)

subsection \<open>Configuration\<close>

text \<open>
  C8. The configuration exposes exactly one option: registering the default configuration
  on an empty flag set leaves one flag, the boolean "operator-manages-identities", whose
  default value is false and which is marked hidden.
\<close>

theorem Flags_registers_one_hidden_bool:
  "Flags defaultConfig [] =
     Inr [\<lparr>Name = ''operator-manages-identities'',
           Usage = ''Enables operator to manage Cilium Identities by running a Cilium Identity controller'',
           DefValue = BoolValue False, Hidden = True\<rparr>]"
  by (simp add: Flags_def defaultConfig_def Bool_def MarkHidden_def)

subsection \<open>UpdateIdentities: the invariants hold in every run\<close>

lemma dispatched_append: "dispatched (xs @ ys) = dispatched xs @ dispatched ys"
  by (induction xs rule: dispatched.induct) simp_all

lemma acked_append: "acked (xs @ ys) = acked xs @ acked ys"
  by (induction xs rule: acked.induct) simp_all

lemma triggers_append: "triggers (xs @ ys) = triggers xs @ triggers ys"
  by (induction xs rule: triggers.induct) simp_all

lemmas trace_append = dispatched_append acked_append triggers_append

lemma set_remove1_insert: "set xs \<subseteq> insert c (set (remove1 c xs))"
  by (induction xs) auto

lemma call_consumer_counted: "counted s \<Longrightarrow> counted (call_consumer c how a d s\<lparr>pc := p\<rparr>)"
  by (cases how) (simp_all add: counted_def call_consumer_def)

lemma call_consumer_accounted: "accounted s \<Longrightarrow> accounted (call_consumer c how a d s\<lparr>pc := p\<rparr>)"
  by (cases how) (auto simp: accounted_def call_consumer_def trace_append)

lemma call_consumer_same_batch:
  "same_batch a d s \<Longrightarrow> same_batch a d (call_consumer c how a d s\<lparr>pc := p\<rparr>)"
  by (cases how) (auto simp: same_batch_def call_consumer_def)

lemma call_consumer_trace:
  "dispatched (trace (call_consumer c how a d s)) = dispatched (trace s) @ [c]"
  "triggers (trace (call_consumer c how a d s)) = triggers (trace s)"
  by (cases how; simp add: call_consumer_def trace_append)+

lemma owner_step_cases:
  assumes "owner_step iao added deleted s = Some s'"
  obtains
    (call) i where "pc s = Loop i" "i < length (identityHandlers iao)"
      "s' = call_consumer (Handler i) (identityHandlers iao ! i) added deleted s\<lparr>pc := Loop (Suc i)\<rparr>"
  | (exit) i where "pc s = Loop i" "\<not> i < length (identityHandlers iao)"
      "s' = s\<lparr>pc := CallSelectorCache\<rparr>"
  | (cache) "pc s = CallSelectorCache"
      "s' = call_consumer SelectorCache (policy iao) added deleted s\<lparr>pc := Wait\<rparr>"
  | (wait) "pc s = Wait" "wg s = 0" "s' = s\<lparr>pc := Trigger, trace := trace s @ [WaitReturn]\<rparr>"
  | (trigger) "pc s = Trigger"
      "s' = s\<lparr>pc := Return, trace := trace s @
               [TriggerPolicyUpdates False ''one or more identities created or deleted'']\<rparr>"
  using assms by (cases "pc s") (auto simp: owner_step_def split: if_splits)

lemma inv_start: "inv iao added deleted start"
  by (simp add: inv_def counted_def accounted_def same_batch_def in_order_def start_def)

lemma owner_step_counted:
  assumes "counted s" and "owner_step iao added deleted s = Some s'"
  shows "counted s'"
  using assms(2)
proof (cases rule: owner_step_cases)
  case (call i)
  then show ?thesis using assms(1) by (simp only: call_consumer_counted)
next
  case cache
  then show ?thesis using assms(1) by (simp only: call_consumer_counted)
qed (use assms(1) in \<open>simp_all add: counted_def\<close>)

lemma owner_step_accounted:
  assumes "accounted s" and "owner_step iao added deleted s = Some s'"
  shows "accounted s'"
  using assms(2)
proof (cases rule: owner_step_cases)
  case (call i)
  then show ?thesis using assms(1) by (simp only: call_consumer_accounted)
next
  case cache
  then show ?thesis using assms(1) by (simp only: call_consumer_accounted)
qed (use assms(1) in \<open>simp_all add: accounted_def trace_append\<close>)

lemma owner_step_same_batch:
  assumes "same_batch added deleted s" and "owner_step iao added deleted s = Some s'"
  shows "same_batch added deleted s'"
  using assms(2)
proof (cases rule: owner_step_cases)
  case (call i)
  then show ?thesis using assms(1) by (simp only: call_consumer_same_batch)
next
  case cache
  then show ?thesis using assms(1) by (simp only: call_consumer_same_batch)
qed (use assms(1) in \<open>simp_all add: same_batch_def\<close>)

lemma owner_step_in_order:
  assumes "in_order iao s" and "counted s" and "owner_step iao added deleted s = Some s'"
  shows "in_order iao s'"
  using assms(3)
proof (cases rule: owner_step_cases)
  case (call i)
  then show ?thesis using assms(1) by (simp add: in_order_def call_consumer_trace)
next
  case (exit i)
  then show ?thesis using assms(1) by (simp add: in_order_def)
next
  case cache
  then show ?thesis using assms(1) by (simp add: in_order_def call_consumer_trace all_consumers_def)
next
  case wait
  then show ?thesis using assms(1,2) by (simp add: in_order_def counted_def trace_append)
next
  case trigger
  then show ?thesis using assms(1) by (simp add: in_order_def trace_append)
qed

lemma inv_owner_step:
  "inv iao added deleted s \<Longrightarrow> owner_step iao added deleted s = Some s' \<Longrightarrow> inv iao added deleted s'"
  unfolding inv_def
  by (blast intro: owner_step_counted owner_step_accounted owner_step_same_batch owner_step_in_order)

lemma inv_done_step:
  assumes "inv iao added deleted s" and "done_step c s = Some s'"
  shows "inv iao added deleted s'"
proof -
  from assms(2) have c: "c \<in> set (running s)"
    and s': "s' = s\<lparr>wg := wg s - 1, running := remove1 c (running s), trace := trace s @ [Ack c]\<rparr>"
    by (auto simp: done_step_def split: if_splits)
  have "counted s'"
    using assms(1) c by (simp add: s' inv_def counted_def length_remove1)
  moreover have "accounted s'"
    using assms(1) set_remove1_insert[of "running s" c]
    by (auto simp: s' inv_def accounted_def trace_append)
  moreover have "same_batch added deleted s'"
    using assms(1) by (simp add: s' inv_def same_batch_def)
  moreover have "in_order iao s'"
    using assms(1) c by (cases "pc s") (auto simp: s' inv_def in_order_def trace_append)
  ultimately show ?thesis by (simp add: inv_def)
qed

lemma inv_exec:
  "inv iao added deleted s \<Longrightarrow> exec iao added deleted sched s = Some s' \<Longrightarrow> inv iao added deleted s'"
proof (induction sched arbitrary: s)
  case Nil
  then show ?case by simp
next
  case (Cons a sched)
  then obtain s1 where s1: "step iao added deleted a s = Some s1"
    and rest: "exec iao added deleted sched s1 = Some s'"
    by (auto split: option.splits)
  have "inv iao added deleted s1"
    using Cons.prems(1) s1 by (cases a) (auto intro: inv_owner_step inv_done_step)
  then show ?case using Cons.IH rest by blast
qed

lemma UpdateIdentities_inv:
  assumes "UpdateIdentities iao added deleted sched = Some tr"
  obtains s where "inv iao added deleted s" and "trace s = tr"
proof -
  from assms obtain s where s: "exec iao added deleted sched start = Some s" and "trace s = tr"
    by (auto simp: UpdateIdentities_def)
  moreover have "inv iao added deleted s"
    using inv_start s by (rule inv_exec)
  ultimately show thesis using that by blast
qed



lemma in_order_triggers:
  "in_order iao s \<Longrightarrow>
     set (triggers (trace s)) \<subseteq> {(False, ''one or more identities created or deleted'')}"
  by (cases "pc s") (auto simp: in_order_def trace_append)

lemma triggers_mem: "TriggerPolicyUpdates full reason \<in> set tr \<longleftrightarrow> (full, reason) \<in> set (triggers tr)"
  by (induction tr rule: triggers.induct) auto

lemma trigger_is_last:
  assumes "in_order iao s" and "trace s = pre @ TriggerPolicyUpdates full reason # post"
  shows "pc s = Return \<and> post = [] \<and> triggers pre = [] \<and> WaitReturn \<in> set pre"
proof -
  have ne: "triggers (trace s) \<noteq> []"
    using assms(2) by (simp add: trace_append)
  then have ret: "pc s = Return"
    using assms(1) by (cases "pc s") (auto simp: in_order_def)
  then obtain pre' where pre': "trace s = pre' @ [TriggerPolicyUpdates False ''one or more identities created or deleted'']"
    and none: "triggers pre' = []" and w: "WaitReturn \<in> set pre'"
    using assms(1) by (auto simp: in_order_def)
  have "post = []"
  proof (cases post rule: rev_cases)
    case Nil
    then show ?thesis .
  next
    case (snoc post' e)
    with assms(2) pre' have "pre' = pre @ TriggerPolicyUpdates full reason # post'"
      by simp
    with none show ?thesis by (simp add: trace_append)
  qed
  with assms(2) pre' have "pre = pre'" by simp
  with ret \<open>post = []\<close> none w show ?thesis by simp
qed


subsection \<open>UpdateIdentities: what has happened when the selector cache is called\<close>
















subsection \<open>UpdateIdentities: order of the calls, the wait and the trigger\<close>




text \<open>
  C2. In every run of UpdateIdentities, when the policy updater is triggered, \<^verbatim>\<open>wg.Wait()\<close>
  has returned, and the selector cache and every registered handler have finished their
  work on the batch before.
\<close>

theorem trigger_after_all_acks:
  assumes "UpdateIdentities iao added deleted sched = Some tr"
    and "tr = pre @ TriggerPolicyUpdates full reason # post"
  shows "WaitReturn \<in> set pre \<and> SelectorCache \<in> set (acked pre) \<and>
         (\<forall>i < length (identityHandlers iao). Handler i \<in> set (acked pre))"
proof -
  from assms(1) obtain s where inv: "inv iao added deleted s" and tr: "trace s = tr"
    by (rule UpdateIdentities_inv)
  from inv have ord: "in_order iao s" and acc: "accounted s"
    by (simp_all add: inv_def)
  from trigger_is_last[OF ord] tr assms(2)
  have ret: "pc s = Return" and post: "post = []" and w: "WaitReturn \<in> set pre"
    by simp_all
  from ord ret have all: "dispatched (trace s) = all_consumers iao" and idle: "running s = []"
    by (simp_all add: in_order_def)
  have "acked (trace s) = acked pre"
    using tr assms(2) post by (simp add: trace_append)
  with acc all idle have "set (all_consumers iao) \<subseteq> set (acked pre)"
    by (simp add: accounted_def)
  then show ?thesis using w by (auto simp: all_consumers_def)
qed

text \<open>
  A run in which both handlers defer their work and finish in the reverse order, after the
  selector cache was called: the trigger comes after both acknowledgements and the wait.
\<close>

theorem trigger_after_all_acks_witness:
  "UpdateIdentities \<lparr>policy = Inline, identityHandlers = [Deferred, Deferred]\<rparr>
       Map.empty [7 \<mapsto> [''app=foo'']]
       [Owner, Owner, Owner, Owner, Background (Handler 1), Background (Handler 0), Owner, Owner] =
     Some ([Dispatch (Handler 0) Map.empty [7 \<mapsto> [''app=foo'']],
            Dispatch (Handler 1) Map.empty [7 \<mapsto> [''app=foo'']],
            Dispatch SelectorCache Map.empty [7 \<mapsto> [''app=foo'']],
            Ack SelectorCache, Ack (Handler 1), Ack (Handler 0), WaitReturn] @
           TriggerPolicyUpdates False ''one or more identities created or deleted'' # [])
   \<and> acked [Dispatch (Handler 0) Map.empty [7 \<mapsto> [''app=foo'']],
             Dispatch (Handler 1) Map.empty [7 \<mapsto> [''app=foo'']],
             Dispatch SelectorCache Map.empty [7 \<mapsto> [''app=foo'']],
             Ack SelectorCache, Ack (Handler 1), Ack (Handler 0), WaitReturn]
       = [SelectorCache, Handler 1, Handler 0]"
proof -
  have run:
    "UpdateIdentities \<lparr>policy = Inline, identityHandlers = [Deferred, Deferred]\<rparr>
       Map.empty [7 \<mapsto> [''app=foo'']]
       [Owner, Owner, Owner, Owner, Background (Handler 1), Background (Handler 0), Owner, Owner] =
     Some ([Dispatch (Handler 0) Map.empty [7 \<mapsto> [''app=foo'']],
            Dispatch (Handler 1) Map.empty [7 \<mapsto> [''app=foo'']],
            Dispatch SelectorCache Map.empty [7 \<mapsto> [''app=foo'']],
            Ack SelectorCache, Ack (Handler 1), Ack (Handler 0), WaitReturn] @
           TriggerPolicyUpdates False ''one or more identities created or deleted'' # [])"
    by (simp add: UpdateIdentities_def start_def owner_step_def done_step_def call_consumer_def)
  from trigger_after_all_acks[OF run refl] run show ?thesis
    by simp
qed

text \<open>
  C3. Every request for policy recomputation that UpdateIdentities makes carries the flag
  false and the reason "one or more identities created or deleted", a non-empty text.
\<close>

theorem trigger_reason_and_flag:
  assumes "UpdateIdentities iao added deleted sched = Some tr"
    and "TriggerPolicyUpdates full reason \<in> set tr"
  shows "full = False \<and> reason = ''one or more identities created or deleted'' \<and> reason \<noteq> []"
proof -
  from assms(1) obtain s where inv: "inv iao added deleted s" and tr: "trace s = tr"
    by (rule UpdateIdentities_inv)
  then have "set (triggers tr) \<subseteq> {(False, ''one or more identities created or deleted'')}"
    using in_order_triggers by (auto simp: inv_def)
  with assms(2) show ?thesis by (auto simp: triggers_mem)
qed

text \<open>A run without handlers: the selector cache is called, the wait returns, the trigger.\<close>

theorem trigger_reason_and_flag_witness:
  "UpdateIdentities \<lparr>policy = Deferred, identityHandlers = []\<rparr>
       [5 \<mapsto> [''app=bar'']] Map.empty [Owner, Owner, Background SelectorCache, Owner, Owner] =
     Some [Dispatch SelectorCache [5 \<mapsto> [''app=bar'']] Map.empty, Ack SelectorCache, WaitReturn,
           TriggerPolicyUpdates False ''one or more identities created or deleted'']
   \<and> TriggerPolicyUpdates False ''one or more identities created or deleted''
       \<in> set [Dispatch SelectorCache [5 \<mapsto> [''app=bar'']] Map.empty, Ack SelectorCache,
               WaitReturn,
               TriggerPolicyUpdates False ''one or more identities created or deleted'']"
proof -
  have run:
    "UpdateIdentities \<lparr>policy = Deferred, identityHandlers = []\<rparr>
       [5 \<mapsto> [''app=bar'']] Map.empty [Owner, Owner, Background SelectorCache, Owner, Owner] =
     Some [Dispatch SelectorCache [5 \<mapsto> [''app=bar'']] Map.empty, Ack SelectorCache, WaitReturn,
           TriggerPolicyUpdates False ''one or more identities created or deleted'']"
    by (simp add: UpdateIdentities_def start_def owner_step_def done_step_def call_consumer_def)
  have mem: "TriggerPolicyUpdates False ''one or more identities created or deleted''
       \<in> set [Dispatch SelectorCache [5 \<mapsto> [''app=bar'']] Map.empty, Ack SelectorCache,
               WaitReturn,
               TriggerPolicyUpdates False ''one or more identities created or deleted'']"
    by simp
  from trigger_reason_and_flag[OF run mem] run mem show ?thesis
    by simp
qed

subsection \<open>UpdateIdentities returns when the deferred work finishes\<close>

text \<open>
  The properties above are about the runs there are. There is a complete run for every
  owner and batch: the owner calls every consumer, the deferred works finish in the order
  they were started, the wait returns and the policy updater is triggered once.
\<close>

lemma exec_append:
  "exec iao added deleted xs s = Some s' \<Longrightarrow> exec iao added deleted ys s' = Some s'' \<Longrightarrow>
     exec iao added deleted (xs @ ys) s = Some s''"
  by (induction xs arbitrary: s) (auto split: option.splits)

lemma loop_runs:
  assumes "pc s = Loop i" and "i + k = length (identityHandlers iao)"
  shows "\<exists>s'. exec iao added deleted (replicate k Owner) s = Some s' \<and>
              pc s' = Loop (length (identityHandlers iao))"
  using assms
proof (induction k arbitrary: s i)
  case 0
  then show ?case by simp
next
  case (Suc k)
  let ?s1 = "call_consumer (Handler i) (identityHandlers iao ! i) added deleted s\<lparr>pc := Loop (Suc i)\<rparr>"
  have step1: "owner_step iao added deleted s = Some ?s1"
    using Suc.prems by (simp add: owner_step_def)
  have "pc ?s1 = Loop (Suc i)" by simp
  moreover have "Suc i + k = length (identityHandlers iao)" using Suc.prems by simp
  ultimately obtain s' where "exec iao added deleted (replicate k Owner) ?s1 = Some s'"
    and "pc s' = Loop (length (identityHandlers iao))"
    using Suc.IH by blast
  then show ?case using step1 by simp
qed

lemma drain_runs:
  assumes "pc s = Wait" and "counted s"
  shows "\<exists>s'. exec iao added deleted (map Background (running s)) s = Some s' \<and>
              pc s' = Wait \<and> wg s' = 0"
  using assms
proof (induction "running s" arbitrary: s)
  case Nil
  then show ?case by (simp add: counted_def)
next
  case (Cons c rest)
  let ?s1 = "s\<lparr>wg := wg s - 1, running := remove1 c (running s), trace := trace s @ [Ack c]\<rparr>"
  have run: "running s = c # rest" using Cons.hyps(2) by simp
  have step1: "done_step c s = Some ?s1"
    using run by (simp add: done_step_def)
  have "rest = running ?s1" using run by simp
  moreover have "pc ?s1 = Wait" using Cons.prems by simp
  moreover have "counted ?s1" using Cons.prems run by (simp add: counted_def)
  ultimately obtain s' where "exec iao added deleted (map Background (running ?s1)) ?s1 = Some s'"
    and "pc s' = Wait \<and> wg s' = 0"
    using Cons.hyps(1) by blast
  then show ?case using step1 run by simp
qed

lemma UpdateIdentities_completes:
  "\<exists>sched tr. UpdateIdentities iao added deleted sched = Some tr \<and>
     triggers tr = [(False, ''one or more identities created or deleted'')]"
proof -
  let ?n = "length (identityHandlers iao)"
  obtain s1 where s1: "exec iao added deleted (replicate ?n Owner) start = Some s1"
    and pc1: "pc s1 = Loop ?n"
    using loop_runs[of start 0 ?n iao added deleted] by (auto simp: start_def)
  obtain s2 where s2: "exec iao added deleted [Owner, Owner] s1 = Some s2" and pc2: "pc s2 = Wait"
    using pc1 by (simp add: owner_step_def)
  have e2: "exec iao added deleted (replicate ?n Owner @ [Owner, Owner]) start = Some s2"
    using s1 s2 by (rule exec_append)
  have "inv iao added deleted s2"
    using inv_start e2 by (rule inv_exec)
  then have "counted s2" by (simp add: inv_def)
  with pc2 obtain s3 where s3: "exec iao added deleted (map Background (running s2)) s2 = Some s3"
    and pc3: "pc s3 = Wait" and wg3: "wg s3 = 0"
    using drain_runs by blast
  obtain s4 where s4: "exec iao added deleted [Owner, Owner] s3 = Some s4" and pc4: "pc s4 = Return"
    using pc3 wg3 by (simp add: owner_step_def)
  let ?sched = "(replicate ?n Owner @ [Owner, Owner]) @ map Background (running s2) @ [Owner, Owner]"
  have e4: "exec iao added deleted ?sched start = Some s4"
    using e2 exec_append[OF s3 s4] by (rule exec_append)
  have "inv iao added deleted s4"
    using inv_start e4 by (rule inv_exec)
  with pc4 have "triggers (trace s4) = [(False, ''one or more identities created or deleted'')]"
    by (auto simp: inv_def in_order_def trace_append)
  moreover have "UpdateIdentities iao added deleted ?sched = Some (trace s4)"
    using e4 by (simp add: UpdateIdentities_def)
  ultimately show ?thesis by blast
qed

subsection \<open>newIdentityAllocator\<close>

text \<open>What the constructor returns, written out.\<close>

lemma newIdentityAllocator_result:
  "newIdentityAllocator netPolicySystemIsEnabled option_Config params h =
     (\<lparr>IdentityAllocator = Suc (length h), CacheIdentityAllocator = Suc (length h),
       RemoteIdentityWatcher = Suc (length h), IdentityObservable = Suc (length h)\<rparr>,
      h @ [OwnerObject \<lparr>policy = PolicyRepository params,
                         identityHandlers = IdentityHandlers params\<rparr>,
           if netPolicySystemIsEnabled option_Config
           then CachingAllocator
                  \<lparr>owner = length h,
                   allocatorConfig = \<lparr>AllocatorConfig_EnableOperatorManageCIDs =
                                        EnableOperatorManageCIDs (Config params)\<rparr>,
                   checkpointing = True, closed = False,
                   identities = Map.empty, restored = {}\<rparr>
           else NoopAllocator],
      Lifecycle params @ [\<lparr>OnStart = None, OnStop = Some (Close_idAlloc (Suc (length h)))\<rparr>])"
  by (simp add: newIdentityAllocator_def new_def NewCachingIdentityAllocator_def
      NewNoopIdentityAllocator_def EnableCheckpointing_def update_object_def Append_def
      Let_def nth_append list_update_append)

text \<open>
  C9. newIdentityAllocator creates one allocator, the full one or the no-op one as the
  configuration says, and returns its address under all four roles; the stop hook it appends
  to the lifecycle closes the object at that same address. The store grows by the owner and
  by this one allocator.
\<close>

theorem newIdentityAllocator_one_instance:
  assumes "newIdentityAllocator netPolicySystemIsEnabled option_Config params h = (out, h', lifecycle)"
  shows "CacheIdentityAllocator out = IdentityAllocator out \<and>
         RemoteIdentityWatcher out = IdentityAllocator out \<and>
         IdentityObservable out = IdentityAllocator out \<and>
         lifecycle = Lifecycle params @
           [\<lparr>OnStart = None, OnStop = Some (Close_idAlloc (IdentityAllocator out))\<rparr>] \<and>
         run_hook_fn (Close_idAlloc (IdentityAllocator out)) h' =
           (None, Close (IdentityAllocator out) h') \<and>
         IdentityAllocator out = Suc (length h) \<and>
         h' = h @ [OwnerObject \<lparr>policy = PolicyRepository params,
                                 identityHandlers = IdentityHandlers params\<rparr>,
                   if netPolicySystemIsEnabled option_Config
                   then CachingAllocator
                          \<lparr>owner = length h,
                           allocatorConfig = \<lparr>AllocatorConfig_EnableOperatorManageCIDs =
                                                EnableOperatorManageCIDs (Config params)\<rparr>,
                           checkpointing = True, closed = False,
                           identities = Map.empty, restored = {}\<rparr>
                   else NoopAllocator] \<and>
         filter is_allocator (drop (length h) h') = [h' ! IdentityAllocator out]"
  using assms unfolding newIdentityAllocator_result
  by (auto simp: nth_append)

text \<open>With the policy subsystem enabled and an empty store, the allocator is object 1.\<close>

theorem newIdentityAllocator_one_instance_witness:
  "newIdentityAllocator (\<lambda>cfg. EnableIPv4 cfg) \<lparr>EnableIPv4 = True, EnableIPv6 = False\<rparr>
     \<lparr>Lifecycle = [], PolicyRepository = Deferred, IdentityHandlers = [Inline],
      Config = defaultConfig\<rparr> []
   = (\<lparr>IdentityAllocator = 1, CacheIdentityAllocator = 1, RemoteIdentityWatcher = 1,
        IdentityObservable = 1\<rparr>,
      [OwnerObject \<lparr>policy = Deferred, identityHandlers = [Inline]\<rparr>,
       CachingAllocator \<lparr>owner = 0,
         allocatorConfig = \<lparr>AllocatorConfig_EnableOperatorManageCIDs = False\<rparr>,
         checkpointing = True, closed = False, identities = Map.empty, restored = {}\<rparr>],
      [\<lparr>OnStart = None, OnStop = Some (Close_idAlloc 1)\<rparr>])"
proof -
  obtain out h' lifecycle where run:
    "newIdentityAllocator (\<lambda>cfg. EnableIPv4 cfg) \<lparr>EnableIPv4 = True, EnableIPv6 = False\<rparr>
       \<lparr>Lifecycle = [], PolicyRepository = Deferred, IdentityHandlers = [Inline],
        Config = defaultConfig\<rparr> [] = (out, h', lifecycle)"
    by (metis prod_cases3)
  from newIdentityAllocator_one_instance[OF run] show ?thesis
    unfolding run by (cases out) (simp add: defaultConfig_def)
qed

text \<open>
  C4. When the network-policy subsystem is disabled, the allocator that newIdentityAllocator
  provides under every role is the no-op one. No sequence of calls of Allocate, Release,
  RestoreLocalIdentities, ReleaseRestoredIdentities or Close against the no-op allocator
  produces a batch of identity changes or touches the checkpoint. The provided allocator has
  checkpointing enabled exactly when it is the full one.
\<close>

theorem noop_when_policy_disabled:
  assumes "newIdentityAllocator netPolicySystemIsEnabled option_Config params h = (out, h', lifecycle)"
  shows "(\<not> netPolicySystemIsEnabled option_Config \<longrightarrow>
            h' ! IdentityAllocator out = NoopAllocator \<and>
            h' ! CacheIdentityAllocator out = NoopAllocator \<and>
            h' ! RemoteIdentityWatcher out = NoopAllocator \<and>
            h' ! IdentityObservable out = NoopAllocator) \<and>
         batches (noop_calls calls env) = batches env \<and>
         checkpoint_ops (noop_calls calls env) = checkpoint_ops env \<and>
         checkpoint (noop_calls calls env) = checkpoint env \<and>
         (checkpointing_enabled (h' ! IdentityAllocator out) \<longleftrightarrow>
            netPolicySystemIsEnabled option_Config)"
proof -
  have "noop_call c e = e" for c e
    by (cases c) simp_all
  then have "noop_calls calls env = env"
    unfolding noop_calls_def by (induction calls) simp_all
  then show ?thesis
    using assms unfolding newIdentityAllocator_result
    by (auto simp: nth_append split: if_splits)
qed

text \<open>
  The policy subsystem is disabled: object 1 is the no-op allocator, and four calls against
  it leave the checkpoint, the log of checkpoint operations and the batches as they were.
\<close>

theorem noop_when_policy_disabled_witness:
  "fst (snd (newIdentityAllocator (\<lambda>cfg. False) \<lparr>EnableIPv4 = True, EnableIPv6 = False\<rparr>
     \<lparr>Lifecycle = [], PolicyRepository = Deferred, IdentityHandlers = [Inline],
      Config = defaultConfig\<rparr> [])) ! 1 = NoopAllocator \<and>
   noop_calls [CallAllocate [''app=foo''], CallRelease 5, CallRestoreLocalIdentities,
               CallReleaseRestoredIdentities]
     \<lparr>checkpoint = Snapshot [5 \<mapsto> [''app=bar'']], checkpoint_ops = [], batches = []\<rparr>
   = \<lparr>checkpoint = Snapshot [5 \<mapsto> [''app=bar'']], checkpoint_ops = [], batches = []\<rparr>"
proof -
  obtain out h' lifecycle where run:
    "newIdentityAllocator (\<lambda>cfg. False) \<lparr>EnableIPv4 = True, EnableIPv6 = False\<rparr>
       \<lparr>Lifecycle = [], PolicyRepository = Deferred, IdentityHandlers = [Inline],
        Config = defaultConfig\<rparr> [] = (out, h', lifecycle)"
    by (metis prod_cases3)
  from noop_when_policy_disabled[OF run,
      of "[CallAllocate [''app=foo''], CallRelease 5, CallRestoreLocalIdentities,
           CallReleaseRestoredIdentities]"
         "\<lparr>checkpoint = Snapshot [5 \<mapsto> [''app=bar'']], checkpoint_ops = [], batches = []\<rparr>"]
  show ?thesis
    using run unfolding newIdentityAllocator_result
    by (auto simp: noop_calls_def)
qed

subsection \<open>Restoring and releasing local identities\<close>

text \<open>
  C5. RestoreLocalIdentities loads the checkpoint. If the load gives a snapshot, the call
  returns a map with exactly the snapshot's keys in which every entry is the identity of
  that number and those labels with reference count 1, the allocator holds these identities,
  and a restoration hold is kept on each. If the load fails the call returns the store's
  error and the allocator is unchanged: a fresh allocator goes on with no local identity.
\<close>

theorem RestoreLocalIdentities_holds:
  assumes "RestoreLocalIdentities a env = (res, a', env')"
  shows "(\<forall>snapshot. checkpoint env = Snapshot snapshot \<longrightarrow>
            (\<exists>m. res = Inr m \<and> dom m = dom snapshot \<and> restored a' = dom snapshot \<and>
                 (\<forall>n ls. snapshot n = Some ls \<longrightarrow>
                    m n = Some \<lparr>numeric = n, labels = ls, scope = Local, refcount = 1\<rparr> \<and>
                    identities a' n = m n))) \<and>
         (checkpoint env = NoFile \<longrightarrow> res = Inl CheckpointUnavailable \<and> a' = a) \<and>
         (checkpoint env = Undecodable \<longrightarrow> res = Inl CheckpointCorrupt \<and> a' = a) \<and>
         env' = env\<lparr>checkpoint_ops := checkpoint_ops env @ [LoadOp]\<rparr>"
  using assms
  by (cases "checkpoint env")
     (auto simp: RestoreLocalIdentities_def Load_def restored_map_def restored_identity_def
        map_add_def dom_def)

text \<open>
  The checkpoint holds identity 5 with the label "app=bar": the fresh allocator restores it
  with reference count 1. With no checkpoint file the call returns the store's error.
\<close>

theorem RestoreLocalIdentities_holds_witness:
  "identities (fst (snd (RestoreLocalIdentities
       \<lparr>owner = 0, allocatorConfig = \<lparr>AllocatorConfig_EnableOperatorManageCIDs = False\<rparr>,
        checkpointing = True, closed = False, identities = Map.empty, restored = {}\<rparr>
       \<lparr>checkpoint = Snapshot [5 \<mapsto> [''app=bar'']], checkpoint_ops = [], batches = []\<rparr>))) 5
     = Some \<lparr>numeric = 5, labels = [''app=bar''], scope = Local, refcount = 1\<rparr> \<and>
   fst (RestoreLocalIdentities
       \<lparr>owner = 0, allocatorConfig = \<lparr>AllocatorConfig_EnableOperatorManageCIDs = False\<rparr>,
        checkpointing = True, closed = False, identities = Map.empty, restored = {}\<rparr>
       \<lparr>checkpoint = NoFile, checkpoint_ops = [], batches = []\<rparr>)
     = Inl CheckpointUnavailable"
proof -
  obtain res a' env' where run:
    "RestoreLocalIdentities
       \<lparr>owner = 0, allocatorConfig = \<lparr>AllocatorConfig_EnableOperatorManageCIDs = False\<rparr>,
        checkpointing = True, closed = False, identities = Map.empty, restored = {}\<rparr>
       \<lparr>checkpoint = Snapshot [5 \<mapsto> [''app=bar'']], checkpoint_ops = [], batches = []\<rparr>
     = (res, a', env')"
    by (metis prod_cases3)
  obtain res0 a0 env0 where fail:
    "RestoreLocalIdentities
       \<lparr>owner = 0, allocatorConfig = \<lparr>AllocatorConfig_EnableOperatorManageCIDs = False\<rparr>,
        checkpointing = True, closed = False, identities = Map.empty, restored = {}\<rparr>
       \<lparr>checkpoint = NoFile, checkpoint_ops = [], batches = []\<rparr>
     = (res0, a0, env0)"
    by (metis prod_cases3)
  from RestoreLocalIdentities_holds[OF run] RestoreLocalIdentities_holds[OF fail]
  show ?thesis
    unfolding run fail by auto
qed

text \<open>
  C6. ReleaseRestoredIdentities is idempotent: a second call changes nothing. After two
  calls no hold is left, every identity that was held has lost exactly one reference (and
  is removed if that was its last), and every other identity is as it was.
\<close>

theorem ReleaseRestoredIdentities_idempotent:
  "ReleaseRestoredIdentities (ReleaseRestoredIdentities a) = ReleaseRestoredIdentities a \<and>
   restored (ReleaseRestoredIdentities a) = {} \<and>
   (\<forall>n \<in> restored a. \<forall>i. identities a n = Some i \<longrightarrow>
      identities (ReleaseRestoredIdentities (ReleaseRestoredIdentities a)) n =
        (if refcount i \<le> 1 then None else Some (i\<lparr>refcount := refcount i - 1\<rparr>))) \<and>
   (\<forall>n. n \<notin> restored a \<longrightarrow>
      identities (ReleaseRestoredIdentities (ReleaseRestoredIdentities a)) n = identities a n)"
  by (simp add: ReleaseRestoredIdentities_def release_hold_def)

text \<open>
  Identity 5 was restored and then allocated by a consumer, so it has two references, one
  of them the hold: after two calls of ReleaseRestoredIdentities it has one.
\<close>

theorem ReleaseRestoredIdentities_idempotent_witness:
  "identities
     (ReleaseRestoredIdentities (ReleaseRestoredIdentities
        \<lparr>owner = 0, allocatorConfig = \<lparr>AllocatorConfig_EnableOperatorManageCIDs = False\<rparr>,
         checkpointing = True, closed = False,
         identities = [5 \<mapsto> \<lparr>numeric = 5, labels = [''app=bar''], scope = Local, refcount = 2\<rparr>],
         restored = {5}\<rparr>)) 5
   = Some \<lparr>numeric = 5, labels = [''app=bar''], scope = Local, refcount = 1\<rparr>"
  using ReleaseRestoredIdentities_idempotent
          [of "\<lparr>owner = 0, allocatorConfig = \<lparr>AllocatorConfig_EnableOperatorManageCIDs = False\<rparr>,
                checkpointing = True, closed = False,
                identities = [5 \<mapsto> \<lparr>numeric = 5, labels = [''app=bar''], scope = Local,
                                       refcount = 2\<rparr>],
                restored = {5}\<rparr>"]
  by (simp add: ReleaseRestoredIdentities_def release_hold_def)

end
